theory Spec2Isabelle
  imports Main
begin

section \<open>Storage: the three tables of \<^verbatim>\<open>backend/main.py\<close>\<close>

text \<open>
  The ORM classes \<^verbatim>\<open>EventDB\<close>, \<^verbatim>\<open>UserDB\<close> and \<^verbatim>\<open>CalendarDB\<close> are records, one
  field per \<^verbatim>\<open>Column\<close>. Field names carry a prefix because the three classes share
  the column name \<^verbatim>\<open>id\<close>. Python integers are \<open>int\<close>, strings are \<open>string\<close>.
\<close>

record EventDB =
  e_id :: int
  e_name :: string
  e_date :: string
  e_time :: string
  e_place :: string
  e_description :: string
  e_image_url :: string

record UserDB =
  u_id :: int
  u_login :: string
  u_password :: string

record CalendarDB =
  c_id :: int
  c_user_id :: int
  c_event_id :: int

text \<open>
  A \<^verbatim>\<open>Session\<close> is the content of the database the request works on: the rows of the
  tables \<^verbatim>\<open>events\<close>, \<^verbatim>\<open>users\<close> and \<^verbatim>\<open>calendar\<close> in rowid order. A handler takes the
  session and returns it, updated when it commits.
\<close>

record Session =
  events :: "EventDB list"
  users :: "UserDB list"
  calendar :: "CalendarDB list"

definition empty_db :: Session where
  "empty_db = \<lparr>events = [], users = [], calendar = []\<rparr>"

text \<open>
  \<^verbatim>\<open>Column(Integer, primary_key=True)\<close> on SQLite is the table's rowid: an insert that
  gives no id takes 1 in an empty table and otherwise one more than the largest id in
  use.
\<close>

definition next_id :: "int list \<Rightarrow> int" where
  "next_id ids = (case ids of [] \<Rightarrow> 1 | x # xs \<Rightarrow> fold max xs x + 1)"

section \<open>Errors\<close>

text \<open>
  \<^verbatim>\<open>HTTPException(status_code, detail)\<close> is raised by the handlers. \<open>IntegrityError\<close>
  is what the insert into \<^verbatim>\<open>users\<close> raises when \<^verbatim>\<open>unique=True\<close> on \<^verbatim>\<open>login\<close> is
  violated, \<open>OverflowError\<close> what a query raises when an integer parameter does not fit
  an SQLite INTEGER, and \<open>ResponseValidationError\<close> what the framework raises when a
  handler's return value does not fit the declared \<^verbatim>\<open>response_model\<close>. The last three
  are not caught anywhere and reach the client as a server fault.
\<close>

datatype error =
  HTTPException int string
  | IntegrityError
  | OverflowError
  | ResponseValidationError

section \<open>Schemas\<close>

record Event =
  ev_id :: "int option"
  ev_name :: string
  ev_date :: string
  ev_time :: string
  ev_place :: string
  ev_description :: string
  ev_image_url :: string

record User =
  usr_id :: int
  usr_login :: string

record RegisterRequest =
  rq_login :: string
  rq_password :: string

type_synonym LoginRequest = RegisterRequest

record CalendarItem =
  ci_user_id :: int
  ci_event_id :: int

record UserSettings =
  theme :: "string option"
  notifications :: "bool option"

text \<open>
  The body of a settings request, before \<^verbatim>\<open>UserSettings\<close> is built from it: each field
  is absent (\<open>None\<close>), or present with the value \<^verbatim>\<open>null\<close> (\<open>Some None\<close>) or with a
  value. Building the schema puts the class's default where the field is absent.
\<close>

record SettingsBody =
  body_theme :: "string option option"
  body_notifications :: "bool option option"

definition UserSettings_init :: "SettingsBody \<Rightarrow> UserSettings" where
  "UserSettings_init b =
     \<lparr>theme = (case body_theme b of None \<Rightarrow> Some ''light'' | Some v \<Rightarrow> v),
      notifications = (case body_notifications b of None \<Rightarrow> Some True | Some v \<Rightarrow> v)\<rparr>"

text \<open>
  \<^verbatim>\<open>response_model=User\<close> and \<^verbatim>\<open>response_model=Event\<close> with \<^verbatim>\<open>from_attributes\<close>
  read the schema's fields from the ORM object. \<^verbatim>\<open>response_model=List[Event]\<close> does so
  for every element, and rejects an element that is \<^verbatim>\<open>None\<close>.
\<close>

definition User_from :: "UserDB \<Rightarrow> User" where
  "User_from u = \<lparr>usr_id = u_id u, usr_login = u_login u\<rparr>"

definition Event_from :: "EventDB \<Rightarrow> Event" where
  "Event_from e =
     \<lparr>ev_id = Some (e_id e), ev_name = e_name e, ev_date = e_date e, ev_time = e_time e,
      ev_place = e_place e, ev_description = e_description e,
      ev_image_url = e_image_url e\<rparr>"

fun Events_from :: "EventDB option list \<Rightarrow> error + Event list" where
  "Events_from [] = Inr []"
| "Events_from (None # xs) = Inl ResponseValidationError"
| "Events_from (Some e # xs) =
     (case Events_from xs of Inl err \<Rightarrow> Inl err | Inr es \<Rightarrow> Inr (Event_from e # es))"

section \<open>Handlers\<close>

text \<open>
  Each handler returns its result, or the exception it raises, together with the
  session it leaves. \<^verbatim>\<open>query(T).filter(P).first()\<close> is \<open>find P\<close> on the table and
  \<^verbatim>\<open>query(T).filter(P).all()\<close> is \<open>filter P\<close>.

  The handlers take \<^verbatim>\<open>event_id: int\<close>, \<^verbatim>\<open>user_id: int\<close> and the ids of a
  \<^verbatim>\<open>CalendarItem\<close> as Python integers of any size and check no range. A query that
  compares an INTEGER column with such a parameter raises \<^verbatim>\<open>OverflowError\<close> when the
  parameter is outside the signed 64-bit range. The values stored in an INTEGER column
  are all inside that range, so a parameter that some row matches is inside it as well:
  the query raises exactly when the parameter is out of range, and then no row matches.
\<close>

definition int64 :: "int \<Rightarrow> bool" where
  "int64 i = (- (2 ^ 63) \<le> i \<and> i < 2 ^ 63)"

definition first_by :: "('a \<Rightarrow> int) \<Rightarrow> int \<Rightarrow> 'a list \<Rightarrow> error + 'a option" where
  "first_by col v rows =
     (case find (\<lambda>r. col r = v) rows of
        Some r \<Rightarrow> Inr (Some r)
      | None \<Rightarrow> if int64 v then Inr None else Inl OverflowError)"

definition all_by :: "('a \<Rightarrow> int) \<Rightarrow> int \<Rightarrow> 'a list \<Rightarrow> error + 'a list" where
  "all_by col v rows =
     (case filter (\<lambda>r. col r = v) rows of
        [] \<Rightarrow> if int64 v then Inr [] else Inl OverflowError
      | r # rs \<Rightarrow> Inr (r # rs))"

subsection \<open>Auth\<close>

definition add_user :: "string \<Rightarrow> string \<Rightarrow> Session \<Rightarrow> error + UserDB \<times> Session" where
  "add_user l p db =
     (if l \<in> set (map u_login (users db)) then Inl IntegrityError
      else
        let user = \<lparr>u_id = next_id (map u_id (users db)), u_login = l, u_password = p\<rparr>
        in Inr (user, db\<lparr>users := users db @ [user]\<rparr>))"

definition register :: "RegisterRequest \<Rightarrow> Session \<Rightarrow> (error + UserDB) \<times> Session" where
  "register data db =
     (if find (\<lambda>u. u_login u = rq_login data) (users db) \<noteq> None
      then (Inl (HTTPException 400 ''User already exists''), db)
      else
        (case add_user (rq_login data) (rq_password data) db of
           Inl err \<Rightarrow> (Inl err, db)
         | Inr (user, db') \<Rightarrow> (Inr user, db')))"

definition login :: "LoginRequest \<Rightarrow> Session \<Rightarrow> (error + UserDB) \<times> Session" where
  "login data db =
     (case find (\<lambda>u. u_login u = rq_login data \<and> u_password u = rq_password data) (users db) of
        None \<Rightarrow> (Inl (HTTPException 401 ''Invalid login or password''), db)
      | Some user \<Rightarrow> (Inr user, db))"

subsection \<open>Events\<close>

definition get_events :: "Session \<Rightarrow> EventDB list \<times> Session" where
  "get_events db = (events db, db)"

definition create_event :: "Event \<Rightarrow> Session \<Rightarrow> EventDB \<times> Session" where
  "create_event event db =
     (let new_event =
            \<lparr>e_id = next_id (map e_id (events db)), e_name = ev_name event,
             e_date = ev_date event, e_time = ev_time event, e_place = ev_place event,
             e_description = ev_description event, e_image_url = ev_image_url event\<rparr>
      in (new_event, db\<lparr>events := events db @ [new_event]\<rparr>))"

definition update_event :: "int \<Rightarrow> Event \<Rightarrow> Session \<Rightarrow> (error + EventDB) \<times> Session" where
  "update_event event_id event db =
     (case first_by e_id event_id (events db) of
        Inl err \<Rightarrow> (Inl err, db)
      | Inr None \<Rightarrow> (Inl (HTTPException 404 ''Event not found''), db)
      | Inr (Some db_event) \<Rightarrow>
          let db_event' =
                db_event\<lparr>e_name := ev_name event, e_date := ev_date event,
                  e_time := ev_time event, e_place := ev_place event,
                  e_description := ev_description event,
                  e_image_url := ev_image_url event\<rparr>
          in (Inr db_event',
              db\<lparr>events := map (\<lambda>e. if e_id e = event_id then db_event' else e) (events db)\<rparr>))"

definition delete_event ::
  "int \<Rightarrow> Session \<Rightarrow> (error + (string \<times> string) list) \<times> Session" where
  "delete_event event_id db =
     (case first_by e_id event_id (events db) of
        Inl err \<Rightarrow> (Inl err, db)
      | Inr None \<Rightarrow> (Inl (HTTPException 404 ''Event not found''), db)
      | Inr (Some event) \<Rightarrow>
          (Inr [(''message'', ''Event deleted'')],
           db\<lparr>events := filter (\<lambda>e. e_id e \<noteq> e_id event) (events db)\<rparr>))"

subsection \<open>Calendar\<close>

definition add_to_calendar ::
  "CalendarItem \<Rightarrow> Session \<Rightarrow> (error + (string \<times> string) list) \<times> Session" where
  "add_to_calendar data db =
     (case first_by u_id (ci_user_id data) (users db) of
        Inl err \<Rightarrow> (Inl err, db)
      | Inr user \<Rightarrow>
          (case first_by e_id (ci_event_id data) (events db) of
             Inl err \<Rightarrow> (Inl err, db)
           | Inr event \<Rightarrow>
               if user = None \<or> event = None
               then (Inl (HTTPException 404 ''User or Event not found''), db)
               else
                 let item = \<lparr>c_id = next_id (map c_id (calendar db)),
                             c_user_id = ci_user_id data, c_event_id = ci_event_id data\<rparr>
                 in (Inr [(''message'', ''Added to calendar'')],
                     db\<lparr>calendar := calendar db @ [item]\<rparr>)))"

text \<open>
  The list comprehension of \<^verbatim>\<open>get_calendar\<close>: one \<^verbatim>\<open>first()\<close> per calendar entry, in
  order, kept as it is (an event or \<^verbatim>\<open>None\<close>).
\<close>

fun events_of :: "CalendarDB list \<Rightarrow> EventDB list \<Rightarrow> error + EventDB option list" where
  "events_of [] evs = Inr []"
| "events_of (item # items) evs =
     (case first_by e_id (c_event_id item) evs of
        Inl err \<Rightarrow> Inl err
      | Inr e \<Rightarrow>
          (case events_of items evs of Inl err \<Rightarrow> Inl err | Inr es \<Rightarrow> Inr (e # es)))"

definition get_calendar :: "int \<Rightarrow> Session \<Rightarrow> (error + EventDB option list) \<times> Session" where
  "get_calendar user_id db =
     (case all_by c_user_id user_id (calendar db) of
        Inl err \<Rightarrow> (Inl err, db)
      | Inr items \<Rightarrow>
          (case events_of items (events db) of
             Inl err \<Rightarrow> (Inl err, db)
           | Inr found \<Rightarrow> (Inr found, db)))"

subsection \<open>User settings\<close>

definition get_settings :: "int \<Rightarrow> UserSettings" where
  "get_settings user_id = UserSettings_init \<lparr>body_theme = None, body_notifications = None\<rparr>"

definition update_settings :: "int \<Rightarrow> UserSettings \<Rightarrow> UserSettings" where
  "update_settings user_id settings = settings"

section \<open>The application: routes and response models\<close>

datatype request =
  PostRegister RegisterRequest
  | PostLogin LoginRequest
  | GetEvents
  | PostEvents Event
  | PutEvents int Event
  | DeleteEvents int
  | PostCalendar CalendarItem
  | GetCalendar int
  | GetSettings int
  | PutSettings int SettingsBody

datatype response =
  UserR User
  | EventR Event
  | EventsR "Event list"
  | JsonR "(string \<times> string) list"
  | SettingsR UserSettings

definition respond ::
  "('a \<Rightarrow> error + response) \<Rightarrow> (error + 'a) \<times> Session \<Rightarrow> (error + response) \<times> Session" where
  "respond model r =
     (case r of (Inl err, db) \<Rightarrow> (Inl err, db) | (Inr v, db) \<Rightarrow> (model v, db))"

definition Events_response :: "EventDB option list \<Rightarrow> error + response" where
  "Events_response vs = (case Events_from vs of Inl err \<Rightarrow> Inl err | Inr es \<Rightarrow> Inr (EventsR es))"

fun app :: "request \<Rightarrow> Session \<Rightarrow> (error + response) \<times> Session" where
  "app (PostRegister data) db = respond (\<lambda>u. Inr (UserR (User_from u))) (register data db)"
| "app (PostLogin data) db = respond (\<lambda>u. Inr (UserR (User_from u))) (login data db)"
| "app GetEvents db =
     (case get_events db of (es, db') \<Rightarrow> (Events_response (map Some es), db'))"
| "app (PostEvents event) db =
     (case create_event event db of (e, db') \<Rightarrow> (Inr (EventR (Event_from e)), db'))"
| "app (PutEvents event_id event) db =
     respond (\<lambda>e. Inr (EventR (Event_from e))) (update_event event_id event db)"
| "app (DeleteEvents event_id) db = respond (\<lambda>m. Inr (JsonR m)) (delete_event event_id db)"
| "app (PostCalendar data) db = respond (\<lambda>m. Inr (JsonR m)) (add_to_calendar data db)"
| "app (GetCalendar user_id) db = respond Events_response (get_calendar user_id db)"
| "app (GetSettings user_id) db = (Inr (SettingsR (get_settings user_id)), db)"
| "app (PutSettings user_id body) db =
     (Inr (SettingsR (update_settings user_id (UserSettings_init body))), db)"

text \<open>The session left by a sequence of requests, served one after the other.\<close>

fun run :: "request list \<Rightarrow> Session \<Rightarrow> Session" where
  "run [] db = db"
| "run (r # rs) db = run rs (snd (app r db))"

section \<open>Database invariant\<close>

text \<open>
  What the storage engine keeps of every table: primary keys are positive and pairwise
  different, and \<^verbatim>\<open>users.login\<close> is unique.
\<close>

definition keys_ok :: "int list \<Rightarrow> bool" where
  "keys_ok ids = (distinct ids \<and> list_all (\<lambda>i. 0 < i) ids)"

definition db_ok :: "Session \<Rightarrow> bool" where
  "db_ok db =
     (keys_ok (map e_id (events db)) \<and> keys_ok (map u_id (users db)) \<and>
      keys_ok (map c_id (calendar db)) \<and> distinct (map u_login (users db)))"

section \<open>Example data\<close>

text \<open>
  A payload of each kind, and the database that registering a user, creating an event and
  saving it to the user's calendar leave behind, starting from the empty database.
\<close>

definition ex_event :: Event where
  "ex_event =
     \<lparr>ev_id = Some 42, ev_name = ''Concert'', ev_date = ''2024-05-01'', ev_time = ''19:00'',
      ev_place = ''Hall'', ev_description = ''Live music'', ev_image_url = ''concert.png''\<rparr>"

definition ex_event2 :: Event where
  "ex_event2 =
     \<lparr>ev_id = None, ev_name = ''Lecture'', ev_date = ''2024-06-02'', ev_time = ''10:30'',
      ev_place = ''Library'', ev_description = ''Open talk'', ev_image_url = ''talk.png''\<rparr>"

definition ex_register :: RegisterRequest where
  "ex_register = \<lparr>rq_login = ''alice'', rq_password = ''secret''\<rparr>"

definition ex_login_wrong :: LoginRequest where
  "ex_login_wrong = \<lparr>rq_login = ''alice'', rq_password = ''guess''\<rparr>"

definition ex_login_unknown :: LoginRequest where
  "ex_login_unknown = \<lparr>rq_login = ''bob'', rq_password = ''secret''\<rparr>"

definition ex_settings_body :: SettingsBody where
  "ex_settings_body = \<lparr>body_theme = Some (Some ''dark''), body_notifications = None\<rparr>"

definition ex_item :: CalendarItem where
  "ex_item = \<lparr>ci_user_id = 1, ci_event_id = 1\<rparr>"

definition ex_db :: Session where
  "ex_db =
     \<lparr>events = [\<lparr>e_id = 1, e_name = ''Concert'', e_date = ''2024-05-01'', e_time = ''19:00'',
         e_place = ''Hall'', e_description = ''Live music'', e_image_url = ''concert.png''\<rparr>],
      users = [\<lparr>u_id = 1, u_login = ''alice'', u_password = ''secret''\<rparr>],
      calendar = [\<lparr>c_id = 1, c_user_id = 1, c_event_id = 1\<rparr>]\<rparr>"

section \<open>Generated ids and the invariant\<close>

lemma fold_max_Max: "fold max xs (x::int) = Max (set (x # xs))"
  by (rule Max.set_eq_fold [symmetric])

lemma next_id_gt: "i \<in> set ids \<Longrightarrow> i < next_id ids"
proof (cases ids)
  case Nil
  assume "i \<in> set ids"
  with Nil show ?thesis by simp
next
  case (Cons x xs)
  assume "i \<in> set ids"
  then have "i \<le> Max (set (x # xs))" using Cons by (intro Max_ge) auto
  then show ?thesis using Cons by (simp add: next_id_def fold_max_Max del: set_simps)
qed

lemma next_id_fresh: "next_id ids \<notin> set ids"
  using next_id_gt [of "next_id ids" ids] by auto

lemma next_id_pos: "list_all (\<lambda>i. 0 < i) ids \<Longrightarrow> 0 < next_id ids"
proof (cases ids)
  case Nil
  then show ?thesis by (simp add: next_id_def)
next
  case (Cons x xs)
  assume "list_all (\<lambda>i. 0 < i) ids"
  then have "0 < x" using Cons by simp
  moreover have "x < next_id ids" using Cons by (intro next_id_gt) simp
  ultimately show ?thesis by simp
qed

lemma keys_ok_snoc: "keys_ok ids \<Longrightarrow> keys_ok (ids @ [next_id ids])"
  by (simp add: keys_ok_def next_id_fresh next_id_pos)

lemma find_None_iff_id: "(find (\<lambda>x. f x = k) xs = None) = (k \<notin> set (map f xs))"
  by (auto simp: find_None_iff)

lemma find_Some_id: "find (\<lambda>x. f x = k) xs = Some y \<Longrightarrow> f y = k \<and> y \<in> set xs"
  by (auto simp: find_Some_iff)

lemma find_after_update:
  "k \<in> set (map e_id xs) \<Longrightarrow> e_id y = k \<Longrightarrow>
   find (\<lambda>e. e_id e = k) (map (\<lambda>e. if e_id e = k then y else e) xs) = Some y"
  by (induction xs) auto

text \<open>
  On a table whose stored values fit the column, the queries are the plain lookups
  behind a parameter that is refused when it is out of range.
\<close>

lemma first_by_bind:
  assumes "list_all (\<lambda>r. int64 (col r)) rows"
  shows "first_by col v rows =
           (if int64 v then Inr (find (\<lambda>r. col r = v) rows) else Inl OverflowError)"
proof (cases "find (\<lambda>r. col r = v) rows")
  case None
  then show ?thesis by (simp add: first_by_def)
next
  case (Some r)
  then have "col r = v" "r \<in> set rows"
    using find_Some_id [of col v rows r] by simp_all
  with assms have "int64 v" by (auto simp: list_all_iff)
  with Some show ?thesis by (simp add: first_by_def)
qed

lemma all_by_bind:
  assumes "list_all (\<lambda>r. int64 (col r)) rows"
  shows "all_by col v rows =
           (if int64 v then Inr (filter (\<lambda>r. col r = v) rows) else Inl OverflowError)"
proof (cases "filter (\<lambda>r. col r = v) rows")
  case Nil
  then show ?thesis by (simp add: all_by_def)
next
  case (Cons r rs)
  then have "r \<in> set (filter (\<lambda>r. col r = v) rows)" by simp
  then have "col r = v" "r \<in> set rows" by simp_all
  with assms have "int64 v" by (auto simp: list_all_iff)
  with Cons show ?thesis by (simp add: all_by_def)
qed

lemma first_by_found:
  "find (\<lambda>r. col r = v) rows = Some r \<Longrightarrow> first_by col v rows = Inr (Some r)"
  by (simp add: first_by_def)

lemma first_by_missing:
  "find (\<lambda>r. col r = v) rows = None \<Longrightarrow>
   first_by col v rows = (if int64 v then Inr None else Inl OverflowError)"
  by (simp add: first_by_def)

lemma first_by_stored:
  assumes "v \<in> set (map col rows)"
  shows "\<exists>r. find (\<lambda>r. col r = v) rows = Some r \<and> first_by col v rows = Inr (Some r)"
proof -
  from assms have "find (\<lambda>r. col r = v) rows \<noteq> None" by (simp add: find_None_iff_id)
  then obtain r where "find (\<lambda>r. col r = v) rows = Some r" by auto
  then show ?thesis by (auto simp: first_by_found)
qed

lemma all_by_int64: "int64 v \<Longrightarrow> all_by col v rows = Inr (filter (\<lambda>r. col r = v) rows)"
  by (simp add: all_by_def split: list.splits)

lemma first_by_int64:
  "int64 v \<Longrightarrow> first_by col v rows = Inr (find (\<lambda>r. col r = v) rows)"
  by (simp add: first_by_def split: option.splits)

lemma first_by_overflow:
  "v \<notin> set (map col rows) \<Longrightarrow> \<not> int64 v \<Longrightarrow> first_by col v rows = Inl OverflowError"
  using find_None_iff_id [of col v rows] by (simp add: first_by_def)

lemma first_by_Inl: "first_by col v rows = Inl err \<Longrightarrow> err = OverflowError"
  by (simp add: first_by_def split: option.splits if_splits)

lemma db_ok_empty: "db_ok empty_db"
  by (simp add: db_ok_def keys_ok_def empty_db_def)

lemma db_ok_register: "db_ok db \<Longrightarrow> db_ok (snd (register data db))"
  by (auto simp: register_def add_user_def db_ok_def keys_ok_snoc Let_def
      split: option.splits)

lemma login_keeps_db: "snd (login data db) = db"
  by (simp add: login_def split: option.splits)

lemma db_ok_create_event: "db_ok db \<Longrightarrow> db_ok (snd (create_event event db))"
  by (simp add: create_event_def db_ok_def keys_ok_snoc Let_def)

lemma map_id_update:
  "e_id y = k \<Longrightarrow> map (e_id \<circ> (\<lambda>e. if e_id e = k then y else e)) xs = map e_id xs"
  by (induction xs) auto

lemma db_ok_update_event: "db_ok db \<Longrightarrow> db_ok (snd (update_event event_id event db))"
proof (cases "find (\<lambda>e. e_id e = event_id) (events db)")
  case None
  assume "db_ok db"
  with None show ?thesis by (simp add: update_event_def first_by_missing)
next
  case (Some old)
  assume ok: "db_ok db"
  from Some have "e_id old = event_id" by (auto simp: find_Some_iff)
  then show ?thesis using ok Some
    by (simp add: update_event_def first_by_found db_ok_def Let_def map_id_update)
qed

lemma keys_ok_filter: "keys_ok (map f xs) \<Longrightarrow> keys_ok (map f (filter P xs))"
  by (induction xs) (auto simp: keys_ok_def)

lemma db_ok_delete_event: "db_ok db \<Longrightarrow> db_ok (snd (delete_event event_id db))"
  by (auto simp: delete_event_def first_by_def db_ok_def keys_ok_filter split: option.splits)

lemma db_ok_add_to_calendar: "db_ok db \<Longrightarrow> db_ok (snd (add_to_calendar data db))"
  by (auto simp: add_to_calendar_def db_ok_def keys_ok_snoc Let_def split: sum.splits)

lemma get_calendar_keeps_db: "snd (get_calendar user_id db) = db"
  by (simp add: get_calendar_def split: sum.splits)

lemma snd_respond: "snd (respond m r) = snd r"
  by (cases r) (auto simp: respond_def split: sum.splits)

lemma db_ok_app: "db_ok db \<Longrightarrow> db_ok (snd (app r db))"
  by (cases r)
    (simp_all add: snd_respond db_ok_register login_keeps_db db_ok_create_event
      db_ok_update_event db_ok_delete_event db_ok_add_to_calendar get_events_def
      get_calendar_keeps_db case_prod_beta)

lemma db_ok_run: "db_ok db \<Longrightarrow> db_ok (run rs db)"
  by (induction rs arbitrary: db) (simp_all add: db_ok_app)

lemma ex_db_run: "run [PostRegister ex_register, PostEvents ex_event, PostCalendar ex_item] empty_db = ex_db"
  by (simp add: ex_db_def ex_register_def ex_event_def ex_item_def empty_db_def
      register_def add_user_def create_event_def add_to_calendar_def first_by_def int64_def
      respond_def next_id_def Let_def)

lemma ex_db_ok: "db_ok ex_db"
  unfolding ex_db_run [symmetric] by (rule db_ok_run [OF db_ok_empty])

section \<open>The calendar of a user\<close>

lemma Events_from_Some: "Events_from (map Some es) = Inr (map Event_from es)"
  by (induction es) simp_all

lemma events_of_found:
  assumes "\<forall>c\<in>set items. c_event_id c \<in> set (map e_id evs)"
  shows "events_of items evs =
           Inr (map (\<lambda>item. find (\<lambda>e. e_id e = c_event_id item) evs) items)"
  using assms
proof (induction items)
  case Nil
  then show ?case by simp
next
  case (Cons c items)
  then have "c_event_id c \<in> set (map e_id evs)" by simp
  then obtain e where "find (\<lambda>e. e_id e = c_event_id c) evs = Some e"
    "first_by e_id (c_event_id c) evs = Inr (Some e)"
    using first_by_stored [of "c_event_id c" e_id evs] by auto
  with Cons show ?case by simp
qed

lemma get_calendar_no_orphans:
  assumes "int64 user_id"
    and "\<forall>c\<in>set (calendar db). c_user_id c = user_id \<longrightarrow> c_event_id c \<in> set (map e_id (events db))"
  shows "\<exists>es. fst (get_calendar user_id db) = Inr (map Some es) \<and>
           length es = length (filter (\<lambda>c. c_user_id c = user_id) (calendar db)) \<and>
           set es \<subseteq> set (events db) \<and>
           map e_id es = map c_event_id (filter (\<lambda>c. c_user_id c = user_id) (calendar db)) \<and>
           fst (app (GetCalendar user_id) db) = Inr (EventsR (map Event_from es))"
proof -
  let ?items = "filter (\<lambda>c. c_user_id c = user_id) (calendar db)"
  let ?look = "\<lambda>item. find (\<lambda>e. e_id e = c_event_id item) (events db)"
  have ex: "\<forall>c\<in>set ?items. ?look c \<noteq> None"
    using assms(2) by (simp add: find_None_iff_id)
  have stored: "\<forall>c\<in>set ?items. c_event_id c \<in> set (map e_id (events db))"
    using assms(2) by simp
  define es where "es = map (\<lambda>c. the (?look c)) ?items"
  have 1: "map ?look ?items = map Some es"
    unfolding es_def using ex by (induction ?items) auto
  have 2: "set es \<subseteq> set (events db)"
  proof
    fix e assume "e \<in> set es"
    then obtain c where c: "c \<in> set ?items" "e = the (?look c)" by (auto simp: es_def)
    with ex obtain e' where "?look c = Some e'" by auto
    with c show "e \<in> set (events db)" by (auto simp: find_Some_iff)
  qed
  have 3: "map e_id es = map c_event_id ?items"
    unfolding es_def map_map
  proof (rule map_cong [OF refl])
    fix c assume c: "c \<in> set ?items"
    with ex obtain e' where e': "?look c = Some e'" by auto
    then have "e_id e' = c_event_id c" by (auto simp: find_Some_iff)
    with e' show "(e_id \<circ> (\<lambda>c. the (?look c))) c = c_event_id c" by simp
  qed
  have 4: "length es = length ?items" by (simp add: es_def)
  have 5: "get_calendar user_id db = (Inr (map Some es), db)"
    using all_by_int64 [OF assms(1), of c_user_id "calendar db"]
      events_of_found [OF stored] 1
    by (simp add: get_calendar_def)
  show ?thesis
    using 2 3 4 5
    by (intro exI [of _ es]) (simp add: respond_def Events_response_def Events_from_Some)
qed

text \<open>
  C1. The claim: get-calendar returns one Event record for every calendar entry of the
  user, so every element of the returned sequence is an Event record. The route declares
  \<^verbatim>\<open>response_model=List[Event]\<close>, but the handler looks each entry's event up with
  \<^verbatim>\<open>first()\<close> and keeps the result as it is. After user 1 saved event 1 and event 1
  was deleted, the calendar entry is still stored, the handler returns the list holding
  \<^verbatim>\<open>None\<close>, and the declared response model rejects it: the request ends in a server
  fault instead of a sequence of Events.
\<close>

theorem get_calendar_orphan:
  "get_calendar 1 (run [DeleteEvents 1] ex_db) = (Inr [None], run [DeleteEvents 1] ex_db) \<and>
   fst (app (GetCalendar 1) (run [DeleteEvents 1] ex_db)) = Inl ResponseValidationError"
  by (simp add: ex_db_def delete_event_def respond_def get_calendar_def all_by_def
      first_by_def int64_def Events_response_def)

section \<open>Updating and deleting events\<close>

text \<open>
  C2, amended. For every event id in the signed 64-bit range: updating an id that is not
  stored fails with 404 "Event not found" and leaves the database as it was. Updating a
  stored id returns the event whose id is the stored one and whose name, date, time,
  place, description and image_url are the submitted ones; that event is what the table
  holds for the id afterwards, every other row and every id is as before, and the id of
  the payload plays no part. For an id outside that range, which no stored event has,
  the lookup raises \<^verbatim>\<open>OverflowError\<close>: the request ends in a server fault and the
  database is as it was.
\<close>

theorem update_event_correct:
  "(event_id \<notin> set (map e_id (events db)) \<and> int64 event_id \<longrightarrow>
      update_event event_id event db = (Inl (HTTPException 404 ''Event not found''), db)) \<and>
   (event_id \<notin> set (map e_id (events db)) \<and> \<not> int64 event_id \<longrightarrow>
      update_event event_id event db = (Inl OverflowError, db)) \<and>
   (event_id \<in> set (map e_id (events db)) \<longrightarrow>
      (let e' = \<lparr>e_id = event_id, e_name = ev_name event, e_date = ev_date event,
                 e_time = ev_time event, e_place = ev_place event,
                 e_description = ev_description event, e_image_url = ev_image_url event\<rparr>;
           db' = db\<lparr>events := map (\<lambda>e. if e_id e = event_id then e' else e) (events db)\<rparr>
       in update_event event_id event db = (Inr e', db') \<and>
          find (\<lambda>e. e_id e = event_id) (events db') = Some e' \<and>
          map e_id (events db') = map e_id (events db))) \<and>
   update_event event_id (event\<lparr>ev_id := i\<rparr>) db = update_event event_id event db"
proof (cases "find (\<lambda>e. e_id e = event_id) (events db)")
  case None
  then have "event_id \<notin> set (map e_id (events db))" by (simp add: find_None_iff_id)
  with None show ?thesis by (simp add: update_event_def first_by_missing)
next
  case (Some old)
  then have old: "e_id old = event_id" "old \<in> set (events db)"
    using find_Some_id [of e_id event_id "events db" old] by simp_all
  then have mem: "event_id \<in> set (map e_id (events db))" by force
  let ?e = "\<lparr>e_id = event_id, e_name = ev_name event, e_date = ev_date event,
             e_time = ev_time event, e_place = ev_place event,
             e_description = ev_description event, e_image_url = ev_image_url event\<rparr>"
  have new: "old\<lparr>e_name := ev_name event, e_date := ev_date event, e_time := ev_time event,
               e_place := ev_place event, e_description := ev_description event,
               e_image_url := ev_image_url event\<rparr> = ?e"
    using old(1) by (cases old) simp
  have 1: "update_event event_id event db =
             (Inr ?e, db\<lparr>events := map (\<lambda>e. if e_id e = event_id then ?e else e) (events db)\<rparr>)"
    using Some new by (simp add: update_event_def first_by_found Let_def)
  have 2: "find (\<lambda>e. e_id e = event_id) (map (\<lambda>e. if e_id e = event_id then ?e else e) (events db)) = Some ?e"
    using mem by (intro find_after_update) simp_all
  have 3: "map e_id (map (\<lambda>e. if e_id e = event_id then ?e else e) (events db)) = map e_id (events db)"
    using map_id_update [of ?e event_id "events db"] by simp
  have 4: "update_event event_id (event\<lparr>ev_id := i\<rparr>) db = update_event event_id event db"
    using Some by (simp add: update_event_def first_by_found)
  show ?thesis using mem 1 2 3 4 by (simp add: Let_def)
qed

theorem update_event_correct_witness:
  "update_event 1 ex_event2 ex_db =
     (Inr \<lparr>e_id = 1, e_name = ''Lecture'', e_date = ''2024-06-02'', e_time = ''10:30'',
            e_place = ''Library'', e_description = ''Open talk'', e_image_url = ''talk.png''\<rparr>,
      ex_db\<lparr>events :=
        [\<lparr>e_id = 1, e_name = ''Lecture'', e_date = ''2024-06-02'', e_time = ''10:30'',
          e_place = ''Library'', e_description = ''Open talk'', e_image_url = ''talk.png''\<rparr>]\<rparr>) \<and>
   int64 9999 \<and>
   update_event 9999 ex_event2 ex_db = (Inl (HTTPException 404 ''Event not found''), ex_db) \<and>
   update_event (- 9223372036854775809) ex_event2 ex_db = (Inl OverflowError, ex_db) \<and>
   update_event 1 (ex_event2\<lparr>ev_id := Some 7\<rparr>) ex_db = update_event 1 ex_event2 ex_db"
  using update_event_correct [of 1 ex_db ex_event2 "Some 7"]
    update_event_correct [of 9999 ex_db ex_event2 "Some 7"]
    update_event_correct [of "- 9223372036854775809" ex_db ex_event2 "Some 7"]
  by (simp add: ex_db_def ex_event2_def int64_def Let_def)

text \<open>
  C2 as first stated, with NotFound for every event id that is not stored, fails at the
  id \<open>2 ^ 63\<close>: no event has it, and \<^verbatim>\<open>PUT /api/events/9223372036854775808\<close> ends in
  \<^verbatim>\<open>OverflowError\<close>, not in 404.
\<close>

theorem update_event_overflow:
  "9223372036854775808 \<notin> set (map e_id (events ex_db)) \<and>
   update_event 9223372036854775808 ex_event2 ex_db = (Inl OverflowError, ex_db) \<and>
   app (PutEvents 9223372036854775808 ex_event2) ex_db = (Inl OverflowError, ex_db)"
  by (simp add: ex_db_def update_event_def first_by_def int64_def respond_def)

text \<open>
  C8, amended. For every event id in the signed 64-bit range: deleting a stored id
  removes the event and answers with the message "Event deleted"; deleting an id that is
  not stored fails with 404 "Event not found" and changes nothing. So a second delete of
  the same id, right after the first, fails with 404. For an id outside that range,
  which no stored event has, the lookup raises \<^verbatim>\<open>OverflowError\<close>: the request ends in
  a server fault and nothing changes.
\<close>

theorem delete_event_twice:
  "(event_id \<in> set (map e_id (events db)) \<longrightarrow>
      (let db' = db\<lparr>events := filter (\<lambda>e. e_id e \<noteq> event_id) (events db)\<rparr>
       in delete_event event_id db = (Inr [(''message'', ''Event deleted'')], db') \<and>
          event_id \<notin> set (map e_id (events db')) \<and>
          (int64 event_id \<longrightarrow>
             delete_event event_id db' = (Inl (HTTPException 404 ''Event not found''), db')))) \<and>
   (event_id \<notin> set (map e_id (events db)) \<and> int64 event_id \<longrightarrow>
      delete_event event_id db = (Inl (HTTPException 404 ''Event not found''), db)) \<and>
   (event_id \<notin> set (map e_id (events db)) \<and> \<not> int64 event_id \<longrightarrow>
      delete_event event_id db = (Inl OverflowError, db))"
proof (cases "find (\<lambda>e. e_id e = event_id) (events db)")
  case None
  then have "event_id \<notin> set (map e_id (events db))" by (simp add: find_None_iff_id)
  with None show ?thesis by (simp add: delete_event_def first_by_missing)
next
  case (Some old)
  then have old: "e_id old = event_id" "old \<in> set (events db)"
    using find_Some_id [of e_id event_id "events db" old] by simp_all
  then have mem: "event_id \<in> set (map e_id (events db))" by force
  let ?db = "db\<lparr>events := filter (\<lambda>e. e_id e \<noteq> event_id) (events db)\<rparr>"
  have 1: "delete_event event_id db = (Inr [(''message'', ''Event deleted'')], ?db)"
    using Some old(1) by (simp add: delete_event_def first_by_found)
  have 2: "event_id \<notin> set (map e_id (events ?db))" by auto
  have "find (\<lambda>e. e_id e = event_id) (events ?db) = None"
    by (simp add: find_None_iff)
  then have 3: "int64 event_id \<longrightarrow>
      delete_event event_id ?db = (Inl (HTTPException 404 ''Event not found''), ?db)"
    by (simp add: delete_event_def first_by_missing)
  show ?thesis using mem 1 2 3 by (simp add: Let_def)
qed

theorem delete_event_twice_witness:
  "delete_event 1 ex_db = (Inr [(''message'', ''Event deleted'')], ex_db\<lparr>events := []\<rparr>) \<and>
   int64 1 \<and>
   delete_event 1 (ex_db\<lparr>events := []\<rparr>) =
     (Inl (HTTPException 404 ''Event not found''), ex_db\<lparr>events := []\<rparr>) \<and>
   delete_event 9999 ex_db = (Inl (HTTPException 404 ''Event not found''), ex_db) \<and>
   delete_event (- 9223372036854775809) ex_db = (Inl OverflowError, ex_db)"
  using delete_event_twice [of 1 ex_db] delete_event_twice [of 9999 ex_db]
    delete_event_twice [of "- 9223372036854775809" ex_db]
  by (simp add: ex_db_def int64_def Let_def)

text \<open>
  C8 as first stated, with NotFound for every event id that is not stored, fails at the
  id \<open>2 ^ 63\<close>: no event has it, and \<^verbatim>\<open>DELETE /api/events/9223372036854775808\<close> ends
  in \<^verbatim>\<open>OverflowError\<close>, not in 404.
\<close>

theorem delete_event_overflow:
  "9223372036854775808 \<notin> set (map e_id (events ex_db)) \<and>
   delete_event 9223372036854775808 ex_db = (Inl OverflowError, ex_db) \<and>
   app (DeleteEvents 9223372036854775808) ex_db = (Inl OverflowError, ex_db)"
  by (simp add: ex_db_def delete_event_def first_by_def int64_def respond_def)

text \<open>
  C10. Deleting an event leaves the users table and the calendar table as they were:
  every calendar entry that references the deleted id is still stored, and no event
  with that id is left for it.
\<close>

theorem delete_event_frame:
  "users (snd (delete_event event_id db)) = users db \<and>
   calendar (snd (delete_event event_id db)) = calendar db \<and>
   (\<forall>c\<in>set (calendar db). c_event_id c = event_id \<longrightarrow>
      c \<in> set (calendar (snd (delete_event event_id db))) \<and>
      find (\<lambda>e. e_id e = c_event_id c) (events (snd (delete_event event_id db))) = None)"
proof (cases "find (\<lambda>e. e_id e = event_id) (events db)")
  case None
  then show ?thesis by (simp add: delete_event_def first_by_missing)
next
  case (Some old)
  then have old: "e_id old = event_id"
    using find_Some_id [of e_id event_id "events db" old] by simp
  have "find (\<lambda>e. e_id e = event_id) (filter (\<lambda>e. e_id e \<noteq> event_id) (events db)) = None"
    by (simp add: find_None_iff)
  then show ?thesis using Some old by (simp add: delete_event_def first_by_found)
qed

theorem delete_event_frame_witness:
  "users (snd (delete_event 1 ex_db)) = users ex_db \<and>
   calendar (snd (delete_event 1 ex_db)) = [\<lparr>c_id = 1, c_user_id = 1, c_event_id = 1\<rparr>] \<and>
   \<lparr>c_id = 1, c_user_id = 1, c_event_id = 1\<rparr> \<in> set (calendar (snd (delete_event 1 ex_db))) \<and>
   find (\<lambda>e. e_id e = 1) (events (snd (delete_event 1 ex_db))) = None"
  using delete_event_frame [of 1 ex_db]
  by (simp add: ex_db_def)

section \<open>Adding to the calendar\<close>

text \<open>
  C3, amended. For every payload whose ids are in the signed 64-bit range: when the user
  id or the event id is not stored, add-to-calendar fails with 404
  "User or Event not found" and the database is unchanged. When both ids are stored it
  answers with the message "Added to calendar" and the calendar table grows by exactly
  one row, with a new id and the payload's user id and event id. When an id of the
  payload is outside that range, so that no row has it, the lookup raises
  \<^verbatim>\<open>OverflowError\<close>: the request ends in a server fault and the database is
  unchanged.
\<close>

theorem add_to_calendar_checked:
  "(ci_user_id data \<in> set (map u_id (users db)) \<and>
    ci_event_id data \<in> set (map e_id (events db)) \<longrightarrow>
      (let item = \<lparr>c_id = next_id (map c_id (calendar db)), c_user_id = ci_user_id data,
                    c_event_id = ci_event_id data\<rparr>
       in add_to_calendar data db =
            (Inr [(''message'', ''Added to calendar'')], db\<lparr>calendar := calendar db @ [item]\<rparr>) \<and>
          c_id item \<notin> set (map c_id (calendar db)) \<and>
          length (calendar (snd (add_to_calendar data db))) = Suc (length (calendar db)))) \<and>
   ((ci_user_id data \<notin> set (map u_id (users db)) \<or>
     ci_event_id data \<notin> set (map e_id (events db))) \<and>
    int64 (ci_user_id data) \<and> int64 (ci_event_id data) \<longrightarrow>
      add_to_calendar data db = (Inl (HTTPException 404 ''User or Event not found''), db)) \<and>
   (ci_user_id data \<notin> set (map u_id (users db)) \<and> \<not> int64 (ci_user_id data) \<or>
    ci_event_id data \<notin> set (map e_id (events db)) \<and> \<not> int64 (ci_event_id data) \<longrightarrow>
      add_to_calendar data db = (Inl OverflowError, db))"
proof (intro conjI impI)
  assume "ci_user_id data \<in> set (map u_id (users db)) \<and>
    ci_event_id data \<in> set (map e_id (events db))"
  then obtain u e where "first_by u_id (ci_user_id data) (users db) = Inr (Some u)"
    "first_by e_id (ci_event_id data) (events db) = Inr (Some e)"
    using first_by_stored [of "ci_user_id data" u_id "users db"]
      first_by_stored [of "ci_event_id data" e_id "events db"] by auto
  moreover have "next_id (map c_id (calendar db)) \<notin> set (map c_id (calendar db))"
    by (rule next_id_fresh)
  ultimately show "let item = \<lparr>c_id = next_id (map c_id (calendar db)), c_user_id = ci_user_id data,
                    c_event_id = ci_event_id data\<rparr>
       in add_to_calendar data db =
            (Inr [(''message'', ''Added to calendar'')], db\<lparr>calendar := calendar db @ [item]\<rparr>) \<and>
          c_id item \<notin> set (map c_id (calendar db)) \<and>
          length (calendar (snd (add_to_calendar data db))) = Suc (length (calendar db))"
    by (simp add: add_to_calendar_def Let_def)
next
  assume a: "(ci_user_id data \<notin> set (map u_id (users db)) \<or>
     ci_event_id data \<notin> set (map e_id (events db))) \<and>
    int64 (ci_user_id data) \<and> int64 (ci_event_id data)"
  then have "find (\<lambda>u. u_id u = ci_user_id data) (users db) = None \<or>
    find (\<lambda>e. e_id e = ci_event_id data) (events db) = None"
    by (simp add: find_None_iff_id)
  with a show "add_to_calendar data db = (Inl (HTTPException 404 ''User or Event not found''), db)"
    by (simp add: add_to_calendar_def first_by_int64)
next
  assume "ci_user_id data \<notin> set (map u_id (users db)) \<and> \<not> int64 (ci_user_id data) \<or>
    ci_event_id data \<notin> set (map e_id (events db)) \<and> \<not> int64 (ci_event_id data)"
  then show "add_to_calendar data db = (Inl OverflowError, db)"
  proof
    assume "ci_user_id data \<notin> set (map u_id (users db)) \<and> \<not> int64 (ci_user_id data)"
    then have "first_by u_id (ci_user_id data) (users db) = Inl OverflowError"
      by (simp add: first_by_overflow)
    then show ?thesis by (simp add: add_to_calendar_def)
  next
    assume "ci_event_id data \<notin> set (map e_id (events db)) \<and> \<not> int64 (ci_event_id data)"
    then have e: "first_by e_id (ci_event_id data) (events db) = Inl OverflowError"
      by (simp add: first_by_overflow)
    show ?thesis
    proof (cases "first_by u_id (ci_user_id data) (users db)")
      case (Inl err)
      then have "err = OverflowError" by (rule first_by_Inl)
      with Inl show ?thesis by (simp add: add_to_calendar_def)
    next
      case (Inr user)
      with e show ?thesis by (simp add: add_to_calendar_def)
    qed
  qed
qed

theorem add_to_calendar_checked_witness:
  "add_to_calendar ex_item ex_db =
     (Inr [(''message'', ''Added to calendar'')],
      ex_db\<lparr>calendar := calendar ex_db @ [\<lparr>c_id = 2, c_user_id = 1, c_event_id = 1\<rparr>]\<rparr>) \<and>
   int64 1 \<and> int64 9999 \<and> int64 5 \<and>
   add_to_calendar \<lparr>ci_user_id = 1, ci_event_id = 9999\<rparr> ex_db =
     (Inl (HTTPException 404 ''User or Event not found''), ex_db) \<and>
   add_to_calendar \<lparr>ci_user_id = 5, ci_event_id = 1\<rparr> ex_db =
     (Inl (HTTPException 404 ''User or Event not found''), ex_db) \<and>
   add_to_calendar \<lparr>ci_user_id = - 9223372036854775809, ci_event_id = 1\<rparr> ex_db =
     (Inl OverflowError, ex_db)"
  using add_to_calendar_checked [of ex_item ex_db]
    add_to_calendar_checked [of "\<lparr>ci_user_id = 1, ci_event_id = 9999\<rparr>" ex_db]
    add_to_calendar_checked [of "\<lparr>ci_user_id = 5, ci_event_id = 1\<rparr>" ex_db]
    add_to_calendar_checked [of "\<lparr>ci_user_id = - 9223372036854775809, ci_event_id = 1\<rparr>" ex_db]
  by (simp add: ex_db_def ex_item_def int64_def Let_def next_id_def)

text \<open>
  C3 as first stated, with NotFound whenever an id of the payload is not stored, fails
  at the payload of user 1 and event \<open>2 ^ 63\<close>: the user is stored, no event has that
  id, and the request ends in \<^verbatim>\<open>OverflowError\<close>, not in 404.
\<close>

theorem add_to_calendar_overflow:
  "1 \<in> set (map u_id (users ex_db)) \<and>
   9223372036854775808 \<notin> set (map e_id (events ex_db)) \<and>
   add_to_calendar \<lparr>ci_user_id = 1, ci_event_id = 9223372036854775808\<rparr> ex_db =
     (Inl OverflowError, ex_db) \<and>
   app (PostCalendar \<lparr>ci_user_id = 1, ci_event_id = 9223372036854775808\<rparr>) ex_db =
     (Inl OverflowError, ex_db)"
  by (simp add: ex_db_def add_to_calendar_def first_by_def int64_def respond_def)

text \<open>
  C9. Duplicates are not prevented: when the user and the event are stored, adding the
  same pair twice succeeds both times and leaves two different calendar rows, both with
  that user id and event id.
\<close>

theorem add_to_calendar_twice:
  assumes "ci_user_id data \<in> set (map u_id (users db))"
    and "ci_event_id data \<in> set (map e_id (events db))"
  shows "\<exists>item1 item2 db1 db2.
           add_to_calendar data db = (Inr [(''message'', ''Added to calendar'')], db1) \<and>
           add_to_calendar data db1 = (Inr [(''message'', ''Added to calendar'')], db2) \<and>
           calendar db2 = calendar db @ [item1, item2] \<and>
           item1 \<noteq> item2 \<and> c_id item1 \<noteq> c_id item2 \<and>
           c_user_id item1 = ci_user_id data \<and> c_event_id item1 = ci_event_id data \<and>
           c_user_id item2 = ci_user_id data \<and> c_event_id item2 = ci_event_id data"
proof -
  let ?msg = "Inr [(''message'', ''Added to calendar'')] :: error + (string \<times> string) list"
  let ?i1 = "\<lparr>c_id = next_id (map c_id (calendar db)), c_user_id = ci_user_id data,
              c_event_id = ci_event_id data\<rparr>"
  let ?db1 = "db\<lparr>calendar := calendar db @ [?i1]\<rparr>"
  let ?i2 = "\<lparr>c_id = next_id (map c_id (calendar ?db1)), c_user_id = ci_user_id data,
              c_event_id = ci_event_id data\<rparr>"
  let ?db2 = "?db1\<lparr>calendar := calendar ?db1 @ [?i2]\<rparr>"
  from assms obtain u e where ue: "first_by u_id (ci_user_id data) (users db) = Inr (Some u)"
    "first_by e_id (ci_event_id data) (events db) = Inr (Some e)"
    using first_by_stored [of "ci_user_id data" u_id "users db"]
      first_by_stored [of "ci_event_id data" e_id "events db"] by auto
  have 1: "add_to_calendar data db = (?msg, ?db1)"
    using ue by (simp add: add_to_calendar_def Let_def)
  have 2: "add_to_calendar data ?db1 = (?msg, ?db2)"
    using ue by (simp add: add_to_calendar_def Let_def)
  have "c_id ?i2 \<notin> set (map c_id (calendar ?db1))"
    unfolding CalendarDB.select_convs by (rule next_id_fresh)
  then have 3: "c_id ?i1 \<noteq> c_id ?i2" by auto
  then have 4: "?i1 \<noteq> ?i2" by auto
  have 5: "calendar ?db2 = calendar db @ [?i1, ?i2]" by simp
  show ?thesis
    apply (rule exI [of _ ?i1], rule exI [of _ ?i2], rule exI [of _ ?db1], rule exI [of _ ?db2])
    using 1 2 3 4 5 by simp
qed

theorem add_to_calendar_twice_witness:
  "ci_user_id ex_item \<in> set (map u_id (users ex_db)) \<and>
   ci_event_id ex_item \<in> set (map e_id (events ex_db)) \<and>
   (\<exists>item1 item2 db1 db2.
      add_to_calendar ex_item ex_db = (Inr [(''message'', ''Added to calendar'')], db1) \<and>
      add_to_calendar ex_item db1 = (Inr [(''message'', ''Added to calendar'')], db2) \<and>
      calendar db2 = calendar ex_db @ [item1, item2] \<and>
      item1 \<noteq> item2 \<and> c_id item1 \<noteq> c_id item2 \<and>
      c_user_id item1 = 1 \<and> c_event_id item1 = 1 \<and>
      c_user_id item2 = 1 \<and> c_event_id item2 = 1)"
proof -
  have u: "ci_user_id ex_item \<in> set (map u_id (users ex_db))"
    by (simp add: ex_item_def ex_db_def)
  have e: "ci_event_id ex_item \<in> set (map e_id (events ex_db))"
    by (simp add: ex_item_def ex_db_def)
  have i: "ci_user_id ex_item = 1" "ci_event_id ex_item = 1" by (simp_all add: ex_item_def)
  show ?thesis using u e add_to_calendar_twice [OF u e] unfolding i by simp
qed

section \<open>Register and login\<close>

text \<open>
  The handlers other than register never write the users table, and register appends a
  user only after it found no user with the login: logins stay pairwise different.
\<close>

lemma register_new:
  assumes "rq_login data \<notin> set (map u_login (users db))"
  shows "register data db =
           (Inr \<lparr>u_id = next_id (map u_id (users db)), u_login = rq_login data,
                  u_password = rq_password data\<rparr>,
            db\<lparr>users := users db @
              [\<lparr>u_id = next_id (map u_id (users db)), u_login = rq_login data,
                 u_password = rq_password data\<rparr>]\<rparr>)"
  using assms by (simp add: register_def add_user_def Let_def find_None_iff_id)

lemma register_known:
  assumes "rq_login data \<in> set (map u_login (users db))"
  shows "register data db = (Inl (HTTPException 400 ''User already exists''), db)"
  using assms by (simp add: register_def find_None_iff_id)

lemma register_no_fault: "fst (register data db) \<noteq> Inl IntegrityError"
  by (cases "rq_login data \<in> set (map u_login (users db))")
    (simp_all add: register_known register_new)

lemma distinct_login_register:
  "distinct (map u_login (users db)) \<Longrightarrow> distinct (map u_login (users (snd (register data db))))"
  by (simp add: register_def add_user_def Let_def find_None_iff_id)

lemma users_create_event: "users (snd (create_event event db)) = users db"
  by (simp add: create_event_def Let_def)

lemma users_update_event: "users (snd (update_event event_id event db)) = users db"
  by (simp add: update_event_def Let_def split: option.splits sum.splits)

lemma users_delete_event: "users (snd (delete_event event_id db)) = users db"
  by (simp add: delete_event_def split: option.splits sum.splits)

lemma users_add_to_calendar: "users (snd (add_to_calendar data db)) = users db"
  by (simp add: add_to_calendar_def Let_def split: sum.splits)

lemma distinct_login_app:
  "distinct (map u_login (users db)) \<Longrightarrow> distinct (map u_login (users (snd (app r db))))"
  by (cases r)
    (simp_all add: snd_respond distinct_login_register login_keeps_db users_create_event
      users_update_event users_delete_event users_add_to_calendar get_events_def
      get_calendar_keeps_db case_prod_beta)

lemma distinct_login_run:
  "distinct (map u_login (users db)) \<Longrightarrow> distinct (map u_login (users (run rs db)))"
  by (induction rs arbitrary: db) (simp_all add: distinct_login_app)

text \<open>
  C4. Registering a login that no stored user has succeeds and returns the new user's id
  and login; registering the same login again, with any password, fails with 400
  "User already exists" and adds no user. The uniqueness constraint on the login is never
  violated by register. No two stored users share a login: every request keeps that
  true, and it holds after every sequence of requests that starts on the empty database.
\<close>

theorem register_unique_login:
  "(rq_login data \<notin> set (map u_login (users db)) \<and> rq_login data' = rq_login data \<longrightarrow>
      (\<exists>user db'.
         register data db = (Inr user, db') \<and>
         User_from user = \<lparr>usr_id = u_id user, usr_login = rq_login data\<rparr> \<and>
         u_id user \<notin> set (map u_id (users db)) \<and>
         users db' = users db @ [user] \<and>
         register data' db' = (Inl (HTTPException 400 ''User already exists''), db'))) \<and>
   fst (register data db) \<noteq> Inl IntegrityError \<and>
   (distinct (map u_login (users db)) \<longrightarrow>
      distinct (map u_login (users (snd (app r db))))) \<and>
   distinct (map u_login (users (run rs empty_db)))"
proof (intro conjI impI)
  assume a: "rq_login data \<notin> set (map u_login (users db)) \<and> rq_login data' = rq_login data"
  let ?user = "\<lparr>u_id = next_id (map u_id (users db)), u_login = rq_login data,
                 u_password = rq_password data\<rparr>"
  let ?db = "db\<lparr>users := users db @ [?user]\<rparr>"
  have 1: "register data db = (Inr ?user, ?db)" using a by (simp add: register_new)
  have "rq_login data' \<in> set (map u_login (users ?db))" using a by simp
  then have 2: "register data' ?db = (Inl (HTTPException 400 ''User already exists''), ?db)"
    by (rule register_known)
  have 3: "u_id ?user \<notin> set (map u_id (users db))"
    unfolding UserDB.select_convs by (rule next_id_fresh)
  show "\<exists>user db'.
         register data db = (Inr user, db') \<and>
         User_from user = \<lparr>usr_id = u_id user, usr_login = rq_login data\<rparr> \<and>
         u_id user \<notin> set (map u_id (users db)) \<and>
         users db' = users db @ [user] \<and>
         register data' db' = (Inl (HTTPException 400 ''User already exists''), db')"
    apply (rule exI [of _ ?user], rule exI [of _ ?db])
    using 1 2 3 by (simp add: User_from_def)
next
  show "fst (register data db) \<noteq> Inl IntegrityError" by (rule register_no_fault)
next
  assume "distinct (map u_login (users db))"
  then show "distinct (map u_login (users (snd (app r db))))" by (rule distinct_login_app)
next
  have "distinct (map u_login (users empty_db))" by (simp add: empty_db_def)
  then show "distinct (map u_login (users (run rs empty_db)))" by (rule distinct_login_run)
qed

theorem register_unique_login_witness:
  "register ex_login_unknown ex_db =
     (Inr \<lparr>u_id = 2, u_login = ''bob'', u_password = ''secret''\<rparr>,
      ex_db\<lparr>users := users ex_db @ [\<lparr>u_id = 2, u_login = ''bob'', u_password = ''secret''\<rparr>]\<rparr>) \<and>
   register \<lparr>rq_login = ''bob'', rq_password = ''other''\<rparr> (snd (register ex_login_unknown ex_db)) =
     (Inl (HTTPException 400 ''User already exists''), snd (register ex_login_unknown ex_db)) \<and>
   distinct (map u_login (users ex_db)) \<and>
   distinct (map u_login (users (snd (app (PostRegister ex_register) ex_db))))"
  using register_unique_login
    [of ex_login_unknown ex_db "\<lparr>rq_login = ''bob'', rq_password = ''other''\<rparr>"
      "PostRegister ex_register" "[]"]
  by (simp add: ex_db_def ex_login_unknown_def ex_register_def register_def add_user_def
      respond_def next_id_def Let_def)

text \<open>
  C5. Login returns a stored user, as its id and login, exactly when some stored user has
  the submitted login and the submitted password; otherwise it fails with 401
  "Invalid login or password". It never changes the database.
\<close>

theorem login_correct:
  "((\<exists>u\<in>set (users db). u_login u = rq_login data \<and> u_password u = rq_password data) \<longrightarrow>
      (\<exists>user\<in>set (users db).
         u_login user = rq_login data \<and> u_password user = rq_password data \<and>
         login data db = (Inr user, db) \<and>
         User_from user = \<lparr>usr_id = u_id user, usr_login = rq_login data\<rparr>)) \<and>
   (\<not> (\<exists>u\<in>set (users db). u_login u = rq_login data \<and> u_password u = rq_password data) \<longrightarrow>
      login data db = (Inl (HTTPException 401 ''Invalid login or password''), db)) \<and>
   snd (login data db) = db"
proof (cases "find (\<lambda>u. u_login u = rq_login data \<and> u_password u = rq_password data) (users db)")
  case None
  then have "\<not> (\<exists>u\<in>set (users db). u_login u = rq_login data \<and> u_password u = rq_password data)"
    by (simp add: find_None_iff)
  then show ?thesis using None by (simp add: login_def)
next
  case (Some user)
  then have u: "user \<in> set (users db)" "u_login user = rq_login data"
    "u_password user = rq_password data"
    by (auto simp: find_Some_iff)
  have "login data db = (Inr user, db)" using Some by (simp add: login_def)
  then show ?thesis using u by (auto simp: User_from_def)
qed

theorem login_correct_witness:
  "login ex_register ex_db = (Inr \<lparr>u_id = 1, u_login = ''alice'', u_password = ''secret''\<rparr>, ex_db) \<and>
   User_from \<lparr>u_id = 1, u_login = ''alice'', u_password = ''secret''\<rparr> =
     \<lparr>usr_id = 1, usr_login = ''alice''\<rparr> \<and>
   login ex_login_wrong ex_db = (Inl (HTTPException 401 ''Invalid login or password''), ex_db) \<and>
   login ex_login_unknown ex_db = (Inl (HTTPException 401 ''Invalid login or password''), ex_db)"
  using login_correct [of ex_db ex_register] login_correct [of ex_db ex_login_wrong]
    login_correct [of ex_db ex_login_unknown]
  by (simp add: ex_db_def ex_register_def ex_login_wrong_def ex_login_unknown_def User_from_def)

section \<open>User settings\<close>

lemma get_settings_default:
  "get_settings user_id = \<lparr>theme = Some ''light'', notifications = Some True\<rparr>"
  by (simp add: get_settings_def UserSettings_init_def)

text \<open>
  C6. get-settings returns theme "light" and notifications true for every user id and in
  every database, whatever requests came before. update-settings returns the settings
  built from the body, where a field the body does not supply has its default, and
  leaves the database unchanged, so a get-settings after it returns the defaults again.
\<close>

theorem settings_stateless:
  "get_settings user_id = \<lparr>theme = Some ''light'', notifications = Some True\<rparr> \<and>
   app (GetSettings user_id) db =
     (Inr (SettingsR \<lparr>theme = Some ''light'', notifications = Some True\<rparr>), db) \<and>
   update_settings user_id' settings = settings \<and>
   app (PutSettings user_id' body) db = (Inr (SettingsR (UserSettings_init body)), db) \<and>
   (body_theme body = None \<longrightarrow> theme (UserSettings_init body) = Some ''light'') \<and>
   (body_notifications body = None \<longrightarrow> notifications (UserSettings_init body) = Some True) \<and>
   (\<forall>v. body_theme body = Some v \<longrightarrow> theme (UserSettings_init body) = v) \<and>
   (\<forall>v. body_notifications body = Some v \<longrightarrow> notifications (UserSettings_init body) = v) \<and>
   app (GetSettings user_id) (snd (app (PutSettings user_id' body) db)) =
     (Inr (SettingsR \<lparr>theme = Some ''light'', notifications = Some True\<rparr>), db) \<and>
   fst (app (GetSettings user_id) (run rs db)) =
     Inr (SettingsR \<lparr>theme = Some ''light'', notifications = Some True\<rparr>)"
  by (simp add: get_settings_default update_settings_def UserSettings_init_def)

theorem settings_stateless_witness:
  "app (PutSettings 1 ex_settings_body) ex_db =
     (Inr (SettingsR \<lparr>theme = Some ''dark'', notifications = Some True\<rparr>), ex_db) \<and>
   app (GetSettings 1) (snd (app (PutSettings 1 ex_settings_body) ex_db)) =
     (Inr (SettingsR \<lparr>theme = Some ''light'', notifications = Some True\<rparr>), ex_db) \<and>
   app (GetSettings 7) ex_db =
     (Inr (SettingsR \<lparr>theme = Some ''light'', notifications = Some True\<rparr>), ex_db)"
  using settings_stateless [of 1 ex_db 1 "UserSettings_init ex_settings_body" ex_settings_body "[]"]
    settings_stateless [of 7 ex_db 1 "UserSettings_init ex_settings_body" ex_settings_body "[]"]
  by (simp add: ex_settings_body_def UserSettings_init_def)

section \<open>Creating and listing events\<close>

lemma app_GetEvents: "app GetEvents db = (Inr (EventsR (map Event_from (events db))), db)"
  by (simp add: get_events_def Events_response_def Events_from_Some)

text \<open>
  C7. In a database that satisfies the invariant \<open>db_ok\<close> (it holds on the empty
  database and every request keeps it, see \<open>db_ok_empty\<close> and \<open>db_ok_run\<close>),
  create-event stores and returns an event with the submitted name, date, time, place,
  description and image_url; its id is generated, is not 0, is not the id of any event
  stored before and is present in the response; the id of the payload plays no part; and
  list-events afterwards ends with the created event. list-events always succeeds, and
  returns the empty sequence when no event is stored.
\<close>

theorem create_event_listed:
  assumes "db_ok db"
  shows "\<exists>new_event db'.
           create_event event db = (new_event, db') \<and>
           new_event =
             \<lparr>e_id = e_id new_event, e_name = ev_name event, e_date = ev_date event,
              e_time = ev_time event, e_place = ev_place event,
              e_description = ev_description event, e_image_url = ev_image_url event\<rparr> \<and>
           e_id new_event \<noteq> 0 \<and> e_id new_event \<notin> set (map e_id (events db)) \<and>
           ev_id (Event_from new_event) = Some (e_id new_event) \<and>
           create_event (event\<lparr>ev_id := i\<rparr>) db = (new_event, db') \<and>
           users db' = users db \<and> calendar db' = calendar db \<and>
           fst (get_events db') = events db @ [new_event] \<and>
           app GetEvents db' =
             (Inr (EventsR (map Event_from (events db) @ [Event_from new_event])), db') \<and>
           app GetEvents (db\<lparr>events := []\<rparr>) = (Inr (EventsR []), db\<lparr>events := []\<rparr>) \<and>
           (\<exists>es. app GetEvents db = (Inr (EventsR es), db))"
proof -
  let ?e = "\<lparr>e_id = next_id (map e_id (events db)), e_name = ev_name event,
             e_date = ev_date event, e_time = ev_time event, e_place = ev_place event,
             e_description = ev_description event, e_image_url = ev_image_url event\<rparr>"
  let ?db = "db\<lparr>events := events db @ [?e]\<rparr>"
  have 1: "create_event event db = (?e, ?db)" by (simp add: create_event_def Let_def)
  have 2: "create_event (event\<lparr>ev_id := i\<rparr>) db = (?e, ?db)"
    by (simp add: create_event_def Let_def)
  from assms have "list_all (\<lambda>i. 0 < i) (map e_id (events db))"
    by (simp add: db_ok_def keys_ok_def)
  then have "0 < next_id (map e_id (events db))" by (rule next_id_pos)
  then have 3: "e_id ?e \<noteq> 0" by simp
  have 4: "e_id ?e \<notin> set (map e_id (events db))"
    unfolding EventDB.select_convs by (rule next_id_fresh)
  have 5: "ev_id (Event_from ?e) = Some (e_id ?e)" by (simp add: Event_from_def)
  have 6: "fst (get_events ?db) = events db @ [?e]" by (simp add: get_events_def)
  have 7: "app GetEvents ?db =
             (Inr (EventsR (map Event_from (events db) @ [Event_from ?e])), ?db)"
    unfolding app_GetEvents by simp
  have 8: "app GetEvents (db\<lparr>events := []\<rparr>) = (Inr (EventsR []), db\<lparr>events := []\<rparr>)"
    unfolding app_GetEvents by simp
  have 9: "\<exists>es. app GetEvents db = (Inr (EventsR es), db)"
    unfolding app_GetEvents by simp
  show ?thesis
    apply (rule exI [of _ ?e], rule exI [of _ ?db])
    using 1 2 3 4 5 6 7 8 9 by simp
qed

theorem create_event_listed_witness:
  "db_ok ex_db \<and>
   create_event ex_event2 ex_db =
     (\<lparr>e_id = 2, e_name = ''Lecture'', e_date = ''2024-06-02'', e_time = ''10:30'',
       e_place = ''Library'', e_description = ''Open talk'', e_image_url = ''talk.png''\<rparr>,
      ex_db\<lparr>events := events ex_db @
        [\<lparr>e_id = 2, e_name = ''Lecture'', e_date = ''2024-06-02'', e_time = ''10:30'',
          e_place = ''Library'', e_description = ''Open talk'', e_image_url = ''talk.png''\<rparr>]\<rparr>) \<and>
   create_event ex_event ex_db =
     (\<lparr>e_id = 2, e_name = ''Concert'', e_date = ''2024-05-01'', e_time = ''19:00'',
       e_place = ''Hall'', e_description = ''Live music'', e_image_url = ''concert.png''\<rparr>,
      ex_db\<lparr>events := events ex_db @
        [\<lparr>e_id = 2, e_name = ''Concert'', e_date = ''2024-05-01'', e_time = ''19:00'',
          e_place = ''Hall'', e_description = ''Live music'', e_image_url = ''concert.png''\<rparr>]\<rparr>) \<and>
   app GetEvents empty_db = (Inr (EventsR []), empty_db)"
proof -
  note ok = ex_db_ok
  have 1: "create_event ex_event2 ex_db =
     (\<lparr>e_id = 2, e_name = ''Lecture'', e_date = ''2024-06-02'', e_time = ''10:30'',
       e_place = ''Library'', e_description = ''Open talk'', e_image_url = ''talk.png''\<rparr>,
      ex_db\<lparr>events := events ex_db @
        [\<lparr>e_id = 2, e_name = ''Lecture'', e_date = ''2024-06-02'', e_time = ''10:30'',
          e_place = ''Library'', e_description = ''Open talk'', e_image_url = ''talk.png''\<rparr>]\<rparr>)"
    using create_event_listed [OF ok, of ex_event2 None]
    by (simp add: create_event_def ex_db_def ex_event2_def next_id_def Let_def)
  have 2: "create_event ex_event ex_db =
     (\<lparr>e_id = 2, e_name = ''Concert'', e_date = ''2024-05-01'', e_time = ''19:00'',
       e_place = ''Hall'', e_description = ''Live music'', e_image_url = ''concert.png''\<rparr>,
      ex_db\<lparr>events := events ex_db @
        [\<lparr>e_id = 2, e_name = ''Concert'', e_date = ''2024-05-01'', e_time = ''19:00'',
          e_place = ''Hall'', e_description = ''Live music'', e_image_url = ''concert.png''\<rparr>]\<rparr>)"
    by (simp add: create_event_def ex_db_def ex_event_def next_id_def Let_def)
  have 3: "app GetEvents empty_db = (Inr (EventsR []), empty_db)"
    unfolding app_GetEvents by (simp add: empty_db_def)
  show ?thesis using ok 1 2 3 by simp
qed

end
